theory Spec2Isabelle
  imports Main "HOL-Library.Word"
begin

section \<open>Strings, numbers and arrays of the host language\<close>

text \<open>
  A JavaScript string is a sequence of UTF-16 code units; \<open>.length\<close> counts code units and
  a regular expression without the \<open>u\<close> flag matches code unit by code unit.
\<close>

type_synonym ustring = "16 word list"

definition lit :: "string \<Rightarrow> ustring" where
  "lit s = map of_char s"

definition dquote :: ustring where
  "dquote = [0x22]"

text \<open>Rendering of a non-negative integer inside a template literal: decimal digits.\<close>

function show_nat :: "nat \<Rightarrow> ustring" where
  "show_nat n = (if n < 10 then [of_nat (48 + n)]
                 else show_nat (n div 10) @ [of_nat (48 + n mod 10)])"
  by pat_completeness auto
termination
  by (relation "measure (\<lambda>n. n)") auto

declare show_nat.simps [simp del]

text \<open>\<open>Array.prototype.join\<close> on an array of strings.\<close>

fun join :: "ustring \<Rightarrow> ustring list \<Rightarrow> ustring" where
  "join sep [] = []"
| "join sep [x] = x"
| "join sep (x # y # ys) = x @ sep @ join sep (y # ys)"

text \<open>
  \<open>join\<close> renders an \<open>undefined\<close> element as the empty string. A value that is a string or
  \<open>undefined\<close> is a \<open>ustring option\<close>, \<open>None\<close> standing for \<open>undefined\<close>.
\<close>

definition join_text :: "ustring option \<Rightarrow> ustring" where
  "join_text v = (case v of None \<Rightarrow> [] | Some s \<Rightarrow> s)"

text \<open>\<open>ToBoolean\<close> of an array: every object is truthy, the empty array included.\<close>

definition array_truthy :: "'a list \<Rightarrow> bool" where
  "array_truthy xs = True"

text \<open>
  The line terminators of ECMAScript: the characters that \<open>.\<close> does not match in a regular
  expression without the \<open>s\<close> flag.
\<close>

definition line_terminator :: "16 word \<Rightarrow> bool" where
  "line_terminator c = (c = 0x000A \<or> c = 0x000D \<or> c = 0x2028 \<or> c = 0x2029)"

text \<open>
  \<open>content.match(new RegExp(`.{1,${n}}`, "g")) || []\<close>: the successive, non-overlapping,
  greedy matches of between 1 and \<open>n\<close> characters other than line terminators, scanning from
  the left. A position holding a line terminator starts no match and is skipped. With no match
  at all \<open>match\<close> gives \<open>null\<close>, which \<open>|| []\<close> turns into the empty array. (The program only
  uses \<open>n = 10000\<close>; the pattern \<open>.{1,0}\<close> is rejected by \<open>RegExp\<close>, so \<open>n = 0\<close> has no matches
  here.)
\<close>

function match_chunks :: "nat \<Rightarrow> ustring \<Rightarrow> ustring list" where
  "match_chunks n [] = []"
| "match_chunks n (c # cs) =
     (if n = 0 then []
      else if line_terminator c then match_chunks n cs
      else (let m = take n (takeWhile (\<lambda>x. \<not> line_terminator x) (c # cs))
            in m # match_chunks n (drop (length m) (c # cs))))"
  by pat_completeness auto
termination
  by (relation "measure (\<lambda>(n, s). length s)") auto

section \<open>Data model\<close>

datatype ResearchType = Web | Ai

record ResearchPlan =
  title :: ustring
  objectives :: ustring
  expectedOutcomes :: ustring
  rtype :: ResearchType
  query :: ustring

record WebContent =
  wc_title :: ustring
  wc_content :: ustring
  wc_url :: ustring

record SearchResult =
  sr_title :: ustring
  sr_url :: ustring
  sr_content :: ustring

record Reference =
  ref_url :: ustring
  ref_title :: ustring

record ResearchSummary =
  answer :: ustring
  references :: "Reference list"

text \<open>The object that \<open>researchPlanSchema\<close> describes.\<close>

record Plan =
  plan_title :: ustring
  language :: ustring
  plan_objectives :: ustring
  plan_expectedOutcomes :: ustring
  researchPlan :: "ResearchPlan list"

datatype Model = fastModel | flagshipModel

section \<open>The outside world\<close>

text \<open>
  Everything that can throw is a value of \<open>error + 'a\<close>. The program has no handler, so an error
  is only ever passed on.
\<close>

datatype error = NetworkError | JsonSyntaxError | GenerationError

text \<open>
  The parsed body of an HTTP response, with the fields the program reads: \<open>results\<close> of the
  search service (\<open>None\<close>: absent) and \<open>content\<close>, \<open>title\<close>, \<open>url\<close> of the page service
  (\<open>content = None\<close>: absent). Title and url are strings, as the interface \<open>WebContent\<close> says.
\<close>

record JsonData =
  results :: "SearchResult list option"
  content :: "ustring option"
  data_title :: ustring
  data_url :: ustring

text \<open>
  A response: its status and what \<open>res.json()\<close> resolves to, or rejects with. A body on which
  reading a field throws (\<open>null\<close>) is an error as well.
\<close>

record Response =
  status :: nat
  json :: "error + JsonData"

text \<open>
  The services the program calls, as functions of the request. \<open>generateUrls\<close> and
  \<open>generatePlan\<close> are \<open>generateObject\<close> with the schema of \<open>getRelevantUrls\<close> and with
  \<open>researchPlanSchema\<close>; \<open>generateText\<close> takes the model, the system instruction if the call
  gives one, and the prompt. \<open>stringify\<close> is \<open>JSON.stringify\<close> on the search results and
  \<open>systemPrompt\<close> the module's constant of that name.
\<close>

record World =
  fetch :: "ustring \<Rightarrow> error + Response"
  generateText :: "Model \<Rightarrow> ustring option \<Rightarrow> ustring \<Rightarrow> error + ustring"
  generateUrls :: "Model \<Rightarrow> ustring \<Rightarrow> error + ustring list"
  generatePlan :: "Model \<Rightarrow> ustring \<Rightarrow> ustring \<Rightarrow> error + Plan"
  stringify :: "SearchResult list \<Rightarrow> ustring"
  systemPrompt :: ustring

text \<open>The calls a computation issues, in a log.\<close>

datatype event =
    Fetch ustring
  | GenerateText Model "ustring option" ustring
  | GenerateUrls Model ustring
  | GeneratePlan Model ustring ustring

text \<open>
  An asynchronous computation: the calls it issued and its outcome, a rejection or a value.
\<close>

type_synonym 'a io = "event list \<times> (error + 'a)"

definition ret :: "'a \<Rightarrow> 'a io" where
  "ret x = ([], Inr x)"

definition call :: "event \<Rightarrow> error + 'a \<Rightarrow> 'a io" where
  "call ev r = ([ev], r)"

definition await :: "'a io \<Rightarrow> ('a \<Rightarrow> 'b io) \<Rightarrow> 'b io" where
  "await m f =
     (case m of
        (l, Inl e) \<Rightarrow> (l, Inl e)
      | (l, Inr x) \<Rightarrow> (case f x of (l', r) \<Rightarrow> (l @ l', r)))"

text \<open>
  \<open>Promise.all\<close> over promises that are already running: every branch issues its calls,
  whatever the others do; the join rejects when a branch rejected, and resolves to the values
  in the order of the array otherwise. The log lists the calls branch by branch, and of several
  rejections the one reported is that of the earliest branch in the array.
\<close>

fun collect :: "(error + 'a) list \<Rightarrow> error + 'a list" where
  "collect [] = Inr []"
| "collect (Inl e # rs) = Inl e"
| "collect (Inr x # rs) = (case collect rs of Inl e \<Rightarrow> Inl e | Inr xs \<Rightarrow> Inr (x # xs))"

definition Promise_all :: "'a io list \<Rightarrow> 'a list io" where
  "Promise_all ps = (concat (map fst ps), collect (map snd ps))"

section \<open>The program\<close>

definition page_request :: "ustring \<Rightarrow> ustring" where
  "page_request u = lit ''https://urlparser.maia.id/?url='' @ u"

text \<open>
  \<open>null\<close> is \<open>None\<close>. A missing \<open>content\<close> and the empty string are both falsy in
  \<open>!data.content\<close>.
\<close>

definition fetchWebContent :: "World \<Rightarrow> ustring \<Rightarrow> WebContent option io" where
  "fetchWebContent w u =
     await (call (Fetch (page_request u)) (fetch w (page_request u))) (\<lambda>res.
       if status res \<noteq> 200 then ret None
       else await ([], json res) (\<lambda>data.
         case content data of
           None \<Rightarrow> ret None
         | Some c \<Rightarrow>
             if c = [] \<or> length c < 100 then ret None
             else ret (Some \<lparr>wc_title = data_title data, wc_content = c,
                              wc_url = data_url data\<rparr>)))"

definition getRelevantUrls :: "World \<Rightarrow> SearchResult list \<Rightarrow> ResearchPlan \<Rightarrow> ustring list io" where
  "getRelevantUrls w rs research =
     (let prompt =
        lit ''From the following search results, find the most relevant URL that can make sure this objective is achieved: ''
        @ dquote @ objectives research @ dquote
        @ lit ''.\<newline>Here is the search results:\<newline>'' @ stringify w rs
      in call (GenerateUrls flagshipModel prompt) (generateUrls w flagshipModel prompt))"

definition chunkSize :: nat where
  "chunkSize = 10000"

definition chunk_prompt :: "ustring \<Rightarrow> ResearchPlan \<Rightarrow> nat \<Rightarrow> nat \<Rightarrow> ustring \<Rightarrow> ustring" where
  "chunk_prompt ttl research index n_chunks chunk =
     lit ''Summarize the following content from '' @ dquote @ ttl @ dquote
     @ lit '' (part '' @ show_nat (index + 1) @ lit ''/'' @ show_nat n_chunks
     @ lit ''). Focus on key points related to: '' @ objectives research
     @ lit ''\<newline>\<newline>Content:\<newline>'' @ chunk"

definition combine_prompt :: "ustring \<Rightarrow> ResearchPlan \<Rightarrow> ustring list \<Rightarrow> ustring" where
  "combine_prompt ttl research chunkSummaries =
     lit ''Combine these summaries from '' @ dquote @ ttl @ dquote
     @ lit '' into a coherent summary. Focus on key points related to: '' @ objectives research
     @ lit ''\<newline>\<newline>Summaries:\<newline>'' @ join (lit ''\<newline>\<newline>'') chunkSummaries"

text \<open>
  The result is a string, or \<open>undefined\<close> (\<open>None\<close>) when \<open>chunkSummaries[0]\<close> reads an empty
  array. The arguments \<open>url\<close> and \<open>spinner\<close> only feed the progress display.
\<close>

definition summarizeContent :: "World \<Rightarrow> ustring \<Rightarrow> ustring \<Rightarrow> ResearchPlan \<Rightarrow> ustring option io" where
  "summarizeContent w c ttl research =
     (let chunks = match_chunks chunkSize c in
      await (Promise_all (map (\<lambda>(index, chunk).
               (let prompt = chunk_prompt ttl research index (length chunks) chunk
                in call (GenerateText fastModel None prompt) (generateText w fastModel None prompt)))
             (enumerate 0 chunks)))
        (\<lambda>chunkSummaries.
           if length chunkSummaries > 1 then
             (let prompt = combine_prompt ttl research chunkSummaries
              in await (call (GenerateText fastModel None prompt)
                             (generateText w fastModel None prompt))
                   (\<lambda>finalSummary. ret (Some finalSummary)))
           else ret (case chunkSummaries of [] \<Rightarrow> None | s # _ \<Rightarrow> Some s)))"

definition MAX_PAGES :: nat where
  "MAX_PAGES = 5"

definition search_request :: "ResearchPlan \<Rightarrow> nat \<Rightarrow> ustring" where
  "search_request research page =
     lit ''https://search.maia.id/search?q='' @ query research
     @ lit ''&format=json&safesearch=0&pageno='' @ show_nat page"

text \<open>The \<open>for\<close> loop of \<open>processWebResearch\<close>, from \<open>page\<close> on, with \<open>allResults\<close> so far.\<close>

function search_pages :: "World \<Rightarrow> ResearchPlan \<Rightarrow> nat \<Rightarrow> SearchResult list \<Rightarrow> SearchResult list io" where
  "search_pages w research page allResults =
     (if page \<le> MAX_PAGES then
        (case fetch w (search_request research page) of
           Inl e \<Rightarrow> ([Fetch (search_request research page)], Inl e)
         | Inr searchRes \<Rightarrow>
            (case json searchRes of
               Inl e \<Rightarrow> ([Fetch (search_request research page)], Inl e)
             | Inr searchData \<Rightarrow>
                (case results searchData of
                   None \<Rightarrow> ([Fetch (search_request research page)], Inr allResults)
                 | Some pageResults \<Rightarrow>
                     if length pageResults = 0
                     then ([Fetch (search_request research page)], Inr allResults)
                     else (case search_pages w research (page + 1) (allResults @ pageResults) of
                             (l, r) \<Rightarrow> (Fetch (search_request research page) # l, r)))))
      else ([], Inr allResults))"
  by pat_completeness auto
termination
  by (relation "measure (\<lambda>(w, research, page, allResults). Suc MAX_PAGES - page)") auto

declare search_pages.simps [simp del]

definition answer_prompt :: "ResearchPlan \<Rightarrow> ustring option list \<Rightarrow> ustring" where
  "answer_prompt research contentSummaries =
     lit ''You're conducting a research on '' @ title research
     @ lit ''. Your objective is '' @ objectives research
     @ lit ''. Here is the expected outcomes: '' @ expectedOutcomes research
     @ lit ''. Based on the following summaries from different sources, provide a comprehensive answer:\<newline>\<newline>''
     @ join (lit ''\<newline>\<newline>'') (map join_text contentSummaries)"

definition reference_of :: "WebContent \<Rightarrow> Reference" where
  "reference_of c = \<lparr>ref_url = wc_url c, ref_title = wc_title c\<rparr>"

definition processWebResearch :: "World \<Rightarrow> ResearchPlan \<Rightarrow> ResearchSummary io" where
  "processWebResearch w research =
     await (search_pages w research 1 []) (\<lambda>allResults.
     await (getRelevantUrls w allResults research) (\<lambda>relevantUrls.
     await (Promise_all (map (fetchWebContent w) relevantUrls)) (\<lambda>contents.
       (let validContents = List.map_filter (\<lambda>c. c) contents in
        await (Promise_all (map (\<lambda>c. summarizeContent w (wc_content c) (wc_title c) research)
                 validContents)) (\<lambda>contentSummaries.
          (let prompt = answer_prompt research contentSummaries in
           await (call (GenerateText fastModel None prompt) (generateText w fastModel None prompt))
             (\<lambda>generated. ret \<lparr>answer = generated,
                            references = map reference_of validContents\<rparr>)))))))"

definition processAiResearch :: "World \<Rightarrow> ResearchPlan \<Rightarrow> ResearchSummary io" where
  "processAiResearch w research =
     await (call (GenerateText fastModel None (query research))
                 (generateText w fastModel None (query research)))
       (\<lambda>generated. ret \<lparr>answer = generated, references = []\<rparr>)"

text \<open>The dispatch inside \<open>deepResearch\<close>: \<open>research.type === "web" ? ... : ...\<close>.\<close>

definition process_research :: "World \<Rightarrow> ResearchPlan \<Rightarrow> ResearchSummary io" where
  "process_research w research =
     (if rtype research = Web then processWebResearch w research
      else processAiResearch w research)"

definition reference_line :: "Reference \<Rightarrow> ustring" where
  "reference_line r = lit ''- ('' @ ref_url r @ lit '')['' @ ref_title r @ lit '']''"

definition result_block :: "nat \<Rightarrow> ResearchSummary \<Rightarrow> ustring" where
  "result_block i e =
     show_nat (i + 1) @ lit ''. '' @ answer e
     @ (if array_truthy (references e)
        then lit ''\<newline>References:'' @ join (lit ''\<newline>'') (map reference_line (references e))
        else [])"

definition plan_line :: "nat \<Rightarrow> ResearchPlan \<Rightarrow> ustring" where
  "plan_line i e = show_nat (i + 1) @ lit ''. '' @ title e @ lit '': '' @ query e"

definition requirements :: ustring where
  "requirements =
     lit ''\<newline>\<newline>Requirements:\<newline>- Write in clear, professional article format using markdown\<newline>''
     @ lit ''- Each paragraph/claim must include reference URLs in brackets at the end\<newline>''
     @ lit ''- ALWAYS USE MULTIPLE REFERENCES WHERE POSSIBLE, SEPARATED BY SEMICOLONS (e.g., [full_url1; full_url2; full_url3])\<newline>''
     @ lit ''- The references should be the full URL, not just the domain name.\<newline>''
     @ lit ''- Exclude any objectives, research plans or expected outcomes sections\<newline>''
     @ lit ''- Focus purely on presenting the research findings in a cohesive narrative\<newline>''
     @ lit ''- The language of the report is ''"

definition report_prompt :: "Plan \<Rightarrow> ResearchSummary list \<Rightarrow> ustring" where
  "report_prompt plan summaries =
     lit ''You're conducting a research, the title is '' @ plan_title plan
     @ lit ''.\<newline>Your objective is: '' @ plan_objectives plan
     @ lit ''.\<newline>Here is the expected outcomes: '' @ plan_expectedOutcomes plan
     @ lit ''.\<newline>\<newline>Here is the current research plan:\<newline>''
     @ join (lit ''\<newline>'') (map (\<lambda>(i, e). plan_line i e) (enumerate 0 (researchPlan plan)))
     @ lit ''\<newline>\<newline>Here is the result based on the research plan above:\<newline>''
     @ join (lit ''\<newline>'') (map (\<lambda>(i, e). result_block i e) (enumerate 0 summaries))
     @ requirements @ language plan"

text \<open>The fan-out of \<open>deepResearch\<close> over the plan's tasks.\<close>

definition process_plan :: "World \<Rightarrow> ResearchPlan list \<Rightarrow> ResearchSummary list io" where
  "process_plan w tasks = Promise_all (map (process_research w) tasks)"

definition deepResearch :: "World \<Rightarrow> ustring \<Rightarrow> ustring io" where
  "deepResearch w prompt =
     await (call (GeneratePlan flagshipModel (systemPrompt w) prompt)
                 (generatePlan w flagshipModel (systemPrompt w) prompt)) (\<lambda>plan.
     await (process_plan w (researchPlan plan)) (\<lambda>summaries.
       (let p = report_prompt plan summaries in
        call (GenerateText flagshipModel None p) (generateText w flagshipModel None p))))"

section \<open>The services in the words of the specification\<close>

text \<open>
  The Search Provider: the hits of page \<open>p\<close> for the task's query, or the error of the request;
  an absent \<open>results\<close> counts as no hit.
\<close>

definition search_page :: "World \<Rightarrow> ResearchPlan \<Rightarrow> nat \<Rightarrow> error + SearchResult list" where
  "search_page w research p =
     (case fetch w (search_request research p) of
        Inl e \<Rightarrow> Inl e
      | Inr res \<Rightarrow>
         (case json res of
            Inl e \<Rightarrow> Inl e
          | Inr d \<Rightarrow> Inr (case results d of None \<Rightarrow> [] | Some rs \<Rightarrow> rs)))"

text \<open>
  The validity of a fetched page (the Content Fetcher and the FetchedPage invariant): the page
  of a URL is valid when the request succeeds with status 200 and the body carries a content of
  at least 100 units; every other outcome is "no content".
\<close>

definition valid_page :: "World \<Rightarrow> ustring \<Rightarrow> WebContent option" where
  "valid_page w u =
     (case fetch w (page_request u) of
        Inl e \<Rightarrow> None
      | Inr res \<Rightarrow>
         if status res = 200 then
           (case json res of
              Inl e \<Rightarrow> None
            | Inr d \<Rightarrow>
               (case content d of
                  None \<Rightarrow> None
                | Some c \<Rightarrow>
                    if 100 \<le> length c
                    then Some \<lparr>wc_title = data_title d, wc_content = c, wc_url = data_url d\<rparr>
                    else None))
         else None)"

section \<open>Concrete worlds\<close>

definition hit :: "string \<Rightarrow> SearchResult" where
  "hit u = \<lparr>sr_title = lit ''t'', sr_url = lit u, sr_content = lit ''snippet''\<rparr>"

definition search_body :: "SearchResult list option \<Rightarrow> error + Response" where
  "search_body rs =
     Inr \<lparr>status = 200,
          json = Inr \<lparr>results = rs, content = None, data_title = [], data_url = []\<rparr>\<rparr>"

definition page_body :: "nat \<Rightarrow> ustring option \<Rightarrow> string \<Rightarrow> string \<Rightarrow> error + Response" where
  "page_body st c t u =
     Inr \<lparr>status = st,
          json = Inr \<lparr>results = None, content = c, data_title = lit t, data_url = lit u\<rparr>\<rparr>"

definition web_task :: ResearchPlan where
  "web_task = \<lparr>title = lit ''T'', objectives = lit ''O'', expectedOutcomes = lit ''E'',
                rtype = Web, query = lit ''q''\<rparr>"

definition ai_task :: ResearchPlan where
  "ai_task = \<lparr>title = lit ''A'', objectives = lit ''O'', expectedOutcomes = lit ''E'',
               rtype = Ai, query = lit ''why''\<rparr>"

definition two_tasks :: Plan where
  "two_tasks = \<lparr>plan_title = lit ''P'', language = lit ''en'', plan_objectives = lit ''O'',
                 plan_expectedOutcomes = lit ''E'', researchPlan = [web_task, ai_task]\<rparr>"

text \<open>
  A world with the given pages and selector answer, whose text service echoes the prompt and
  whose plan is always \<open>two_tasks\<close>.
\<close>

definition world_of :: "(ustring \<Rightarrow> error + Response) \<Rightarrow> error + ustring list \<Rightarrow> World" where
  "world_of f sel =
     \<lparr>fetch = f,
      generateText = (\<lambda>m s p. Inr p),
      generateUrls = (\<lambda>m p. sel),
      generatePlan = (\<lambda>m s p. Inr two_tasks),
      stringify = (\<lambda>rs. []),
      systemPrompt = []\<rparr>"



text \<open>
  One page of search results with the single hit \<open>x\<close>; the page service answers \<open>page\<close> for
  \<open>x\<close> and a valid page of 100 letters for \<open>y\<close>.
\<close>

definition letters :: ustring where
  "letters = replicate 100 0x61"

definition site :: "error + Response \<Rightarrow> ustring \<Rightarrow> error + Response" where
  "site page rq =
     (if rq = search_request web_task 1 then search_body (Some [hit ''x''])
      else if rq = search_request web_task 2 then search_body None
      else if rq = page_request (lit ''x'') then page
      else if rq = page_request (lit ''y'') then page_body 200 (Some letters) ''Y'' ''y''
      else Inl NetworkError)"

text \<open>
  No search hit on any page; the page service answers \<open>page\<close> for \<open>y\<close>.
\<close>

definition no_hits :: "error + Response \<Rightarrow> ustring \<Rightarrow> error + Response" where
  "no_hits page rq =
     (if rq = page_request (lit ''y'') then page else search_body (Some []))"

text \<open>A content of 101 units: 50 letters, a newline, 50 letters.\<close>

definition two_lines :: ustring where
  "two_lines = replicate 50 0x61 @ [0x0A] @ replicate 50 0x61"

section \<open>Asynchronous computations\<close>

lemma await_Inr: "m = (l, Inr x) \<Longrightarrow> await m f = (l @ fst (f x), snd (f x))"
  by (simp add: await_def split: prod.splits)

lemma await_Inl: "m = (l, Inl e) \<Longrightarrow> await m f = (l, Inl e)"
  by (simp add: await_def)

lemma snd_await_Inr:
  "snd (await m f) = Inr y \<longleftrightarrow> (\<exists>x. snd m = Inr x \<and> snd (f x) = Inr y)"
  by (cases m) (auto simp: await_def split: sum.splits prod.splits)

lemma collect_map_Inr: "collect (map Inr xs) = Inr xs"
  by (induction xs) auto

lemma collect_Inr: "collect rs = Inr xs \<longleftrightarrow> rs = map Inr xs"
proof
  show "collect rs = Inr xs \<Longrightarrow> rs = map Inr xs"
    by (induction rs arbitrary: xs rule: collect.induct) (auto split: sum.splits)
qed (simp add: collect_map_Inr)

lemma collect_length: "collect rs = Inr xs \<Longrightarrow> length xs = length rs"
  by (auto simp: collect_Inr)

lemma Promise_all_log: "fst (Promise_all ps) = concat (map fst ps)"
  by (simp add: Promise_all_def)

lemma Promise_all_value: "snd (Promise_all ps) = Inr xs \<longleftrightarrow> map snd ps = map Inr xs"
  by (simp add: Promise_all_def collect_Inr)

lemma Promise_all_map:
  "(\<forall>x\<in>set xs. snd (f x) = Inr (g x)) \<Longrightarrow> snd (Promise_all (map f xs)) = Inr (map g xs)"
  by (simp add: Promise_all_value)

lemma Promise_all_value_nth:
  "snd (Promise_all ps) = Inr xs \<longleftrightarrow>
     length xs = length ps \<and> (\<forall>i<length ps. snd (ps ! i) = Inr (xs ! i))"
  unfolding Promise_all_value by (auto simp: list_eq_iff_nth_eq)

lemma map_filter_map: "List.map_filter (\<lambda>c. c) (map g xs) = List.map_filter g xs"
  by (induction xs) (simp_all split: option.splits)

lemma set_map_filter: "set (List.map_filter g xs) = {y. \<exists>x\<in>set xs. g x = Some y}"
  by (induction xs) (auto split: option.splits)

section \<open>Requests\<close>

lemma show_nat_digit: "n < 10 \<Longrightarrow> show_nat n = [of_nat (48 + n)]"
  by (subst show_nat.simps) simp

lemma search_request_eq [simp]:
  "search_request r p = search_request r q \<longleftrightarrow> show_nat p = show_nat q"
  by (simp add: search_request_def)

lemma request_distinct [simp]: "page_request u \<noteq> search_request r p" "search_request r p \<noteq> page_request u"
  by (simp_all add: page_request_def search_request_def lit_def)

lemma page_request_eq [simp]: "page_request u = page_request v \<longleftrightarrow> u = v"
  by (simp add: page_request_def)

section \<open>Chunking\<close>

lemma match_chunks_terminators:
  "\<forall>c\<in>set s. line_terminator c \<Longrightarrow> match_chunks n s = []"
  by (induction s) auto

lemma match_chunks_run:
  assumes "0 < n" "a \<noteq> []" "length a \<le> n" "\<forall>c\<in>set a. \<not> line_terminator c"
    and "rest = [] \<or> line_terminator (hd rest)"
  shows "match_chunks n (a @ rest) = a # match_chunks n rest"
proof -
  obtain c cs where a: "a = c # cs" using assms(2) by (cases a) auto
  have tw: "takeWhile (\<lambda>x. \<not> line_terminator x) (a @ rest) = a"
    using assms(4,5) by (cases rest) (auto intro: takeWhile_eq_all_conv[THEN iffD2])
  have "match_chunks n ((c # cs) @ rest) = a # match_chunks n rest"
    using assms(1,3,4) tw unfolding a by (simp add: Let_def)
  then show ?thesis by (simp add: a)
qed

lemma match_chunks_single:
  assumes "0 < n" "a \<noteq> []" "length a \<le> n" "\<forall>c\<in>set a. \<not> line_terminator c"
  shows "match_chunks n a = [a]"
  using match_chunks_run[OF assms, of "[]"] by simp

lemma take_drop_chunk: "take n s @ drop (length (take n s)) s = s"
  by (cases "n \<le> length s") (simp_all add: min_def)

lemma match_chunks_plain:
  assumes "0 < n" "\<forall>c\<in>set s. \<not> line_terminator c"
  shows "concat (match_chunks n s) = s
       \<and> (\<forall>m\<in>set (match_chunks n s). m \<noteq> [] \<and> length m \<le> n)
       \<and> (\<forall>i. Suc i < length (match_chunks n s) \<longrightarrow> length (match_chunks n s ! i) = n)"
  using assms
proof (induction n s rule: match_chunks.induct)
  case (1 n)
  then show ?case by simp
next
  case (2 n c cs)
  define s where "s = c # cs"
  define m where "m = take n (takeWhile (\<lambda>x. \<not> line_terminator x) s)"
  have c: "\<not> line_terminator c" and nz: "n \<noteq> 0" using "2.prems" by simp_all
  have tw: "takeWhile (\<lambda>x. \<not> line_terminator x) s = s"
    using "2.prems"(2) unfolding s_def by (intro takeWhile_eq_all_conv[THEN iffD2]) simp
  have m: "m = take n s" by (simp add: m_def tw)
  have eq: "match_chunks n s = m # match_chunks n (drop (length m) s)"
    unfolding s_def m_def by (subst match_chunks.simps(2)) (simp only: nz c if_False Let_def)
  have rest: "\<forall>x\<in>set (drop (length m) s). \<not> line_terminator x"
  proof
    fix x assume "x \<in> set (drop (length m) s)"
    then have "x \<in> set s" by (rule in_set_dropD)
    then show "\<not> line_terminator x" using "2.prems"(2) by (auto simp: s_def)
  qed
  have IH: "concat (match_chunks n (drop (length m) s)) = drop (length m) s
       \<and> (\<forall>k\<in>set (match_chunks n (drop (length m) s)). k \<noteq> [] \<and> length k \<le> n)
       \<and> (\<forall>i. Suc i < length (match_chunks n (drop (length m) s)) \<longrightarrow>
              length (match_chunks n (drop (length m) s) ! i) = n)"
    using "2.IH"(2)[OF nz c m_def[unfolded s_def] "2.prems"(1) rest[unfolded s_def]]
    unfolding s_def .
  have mne: "m \<noteq> []" "length m \<le> n" using nz by (simp_all add: m s_def)
  have a: "concat (match_chunks n s) = s"
  proof -
    have "concat (match_chunks n s) = m @ drop (length m) s"
      by (subst eq) (simp add: IH)
    also have "\<dots> = s" unfolding m by (rule take_drop_chunk)
    finally show ?thesis .
  qed
  have b: "\<forall>k\<in>set (match_chunks n s). k \<noteq> [] \<and> length k \<le> n"
    unfolding eq using IH mne by simp
  have d: "length (match_chunks n s ! i) = n" if "Suc i < length (match_chunks n s)" for i
  proof (cases i)
    case 0
    with that have "match_chunks n (drop (length m) s) \<noteq> []" unfolding eq by auto
    then have "drop (length m) s \<noteq> []" by (cases "drop (length m) s") simp_all
    then have "n < length s" by (simp add: m min_def split: if_splits)
    with 0 show ?thesis unfolding eq by (simp add: m)
  next
    case (Suc j)
    with that IH show ?thesis unfolding eq by simp
  qed
  from a b d show ?case unfolding s_def by blast
qed

lemma match_chunks_two_lines:
  "match_chunks chunkSize two_lines = [replicate 50 0x61, replicate 50 0x61]"
proof -
  have a: "match_chunks chunkSize (replicate 50 0x61 @ (0x0A # replicate 50 0x61))
           = replicate 50 0x61 # match_chunks chunkSize (0x0A # replicate 50 0x61)"
    by (rule match_chunks_run) (simp_all add: chunkSize_def line_terminator_def)
  have b: "match_chunks chunkSize (0x0A # replicate 50 0x61) = match_chunks chunkSize (replicate 50 0x61)"
    by (simp add: chunkSize_def line_terminator_def)
  have c: "match_chunks chunkSize (replicate 50 0x61) = [replicate 50 0x61]"
    by (rule match_chunks_single) (simp_all add: chunkSize_def line_terminator_def)
  show ?thesis unfolding two_lines_def using a b c by simp
qed

section \<open>The summarizer\<close>

lemma summarizeContent_log:
  "fst (summarizeContent w c ttl research) =
     map (\<lambda>(index, chunk). GenerateText fastModel None
            (chunk_prompt ttl research index (length (match_chunks chunkSize c)) chunk))
         (enumerate 0 (match_chunks chunkSize c))
     @ (case collect (map (\<lambda>(index, chunk). generateText w fastModel None
                 (chunk_prompt ttl research index (length (match_chunks chunkSize c)) chunk))
              (enumerate 0 (match_chunks chunkSize c))) of
          Inl e \<Rightarrow> []
        | Inr chunkSummaries \<Rightarrow>
            if length chunkSummaries > 1
            then [GenerateText fastModel None (combine_prompt ttl research chunkSummaries)]
            else [])"
  by (simp add: summarizeContent_def Let_def await_def Promise_all_def call_def ret_def
        comp_def case_prod_unfold split: sum.splits prod.splits)

lemma summarizeContent_single_chunk:
  assumes "c \<noteq> []" "length c \<le> chunkSize" "\<forall>x\<in>set c. \<not> line_terminator x"
  shows "summarizeContent w c ttl research =
           ([GenerateText fastModel None (chunk_prompt ttl research 0 1 c)],
            map_sum id Some (generateText w fastModel None (chunk_prompt ttl research 0 1 c)))"
proof -
  have m: "match_chunks chunkSize c = [c]"
    by (rule match_chunks_single) (use assms in \<open>simp_all add: chunkSize_def\<close>)
  show ?thesis
    unfolding summarizeContent_def m
    by (cases "generateText w fastModel None (chunk_prompt ttl research 0 1 c)")
       (simp_all add: enumerate_eq_zip Promise_all_def await_def call_def ret_def Let_def)
qed

lemma summarizeContent_returns:
  assumes "\<forall>m s p. \<exists>t. generateText w m s p = Inr t"
  shows "\<exists>s. snd (summarizeContent w c ttl research) = Inr s"
proof -
  from assms obtain g where g: "\<And>m s p. generateText w m s p = Inr (g m s p)" by metis
  have "collect (map (\<lambda>x. Inr (h x)) xs) = Inr (map h xs)" for h :: "nat \<times> ustring \<Rightarrow> ustring" and xs
    using collect_map_Inr[of "map h xs"] by (simp add: comp_def)
  then show ?thesis
    by (simp add: summarizeContent_def Let_def await_def Promise_all_def call_def ret_def g
          comp_def case_prod_unfold)
qed

text \<open>
  The number of calls of the summarizer: one per chunk, and one more for the combination when
  there are several chunks and each of their calls returned.
\<close>

lemma summarizeContent_call_count:
  assumes "\<forall>m s p. \<exists>t. generateText w m s p = Inr t"
  shows "length (fst (summarizeContent w c ttl research)) =
           (if 1 < length (match_chunks chunkSize c) then length (match_chunks chunkSize c) + 1
            else length (match_chunks chunkSize c))"
proof -
  define g where "g p = projr (generateText w fastModel None p)" for p
  have g: "generateText w fastModel None p = Inr (g p)" for p
  proof -
    from assms obtain t where "generateText w fastModel None p = Inr t" by blast
    then show ?thesis by (simp add: g_def)
  qed
  have "collect (map (\<lambda>x. Inr (h x)) xs) = Inr (map h xs)" for h :: "nat \<times> ustring \<Rightarrow> ustring" and xs
    using collect_map_Inr[of "map h xs"] by (simp add: comp_def)
  then show ?thesis
    unfolding summarizeContent_log by (simp add: g case_prod_unfold)
qed

lemma summarizeContent_call_bounds:
  "length (match_chunks chunkSize c) \<le> length (fst (summarizeContent w c ttl research))
   \<and> length (fst (summarizeContent w c ttl research)) \<le> Suc (length (match_chunks chunkSize c))"
  unfolding summarizeContent_log by (simp split: sum.splits)

text \<open>
  C2, evaluated on a content of 101 units with a newline in the middle. The content is no
  longer than the chunk size, yet it is split in two chunks of 50 units (the newline belongs
  to neither), the summarizer issues the two calls for the chunks, and a third call, for the
  combination, when both return: three calls with a text service that answers.
\<close>

theorem summarizeContent_two_lines:
  "length two_lines = 101 \<and> length two_lines \<le> chunkSize
   \<and> match_chunks chunkSize two_lines = [replicate 50 0x61, replicate 50 0x61]
   \<and> fst (summarizeContent w two_lines ttl research) =
       [GenerateText fastModel None (chunk_prompt ttl research 0 2 (replicate 50 0x61)),
        GenerateText fastModel None (chunk_prompt ttl research 1 2 (replicate 50 0x61))]
       @ (case collect [generateText w fastModel None (chunk_prompt ttl research 0 2 (replicate 50 0x61)),
                        generateText w fastModel None (chunk_prompt ttl research 1 2 (replicate 50 0x61))] of
            Inl e \<Rightarrow> []
          | Inr chunkSummaries \<Rightarrow> [GenerateText fastModel None (combine_prompt ttl research chunkSummaries)])
   \<and> length (fst (summarizeContent (world_of f sel) two_lines ttl research)) = 3"
proof -
  have len: "length two_lines = 101" by (simp add: two_lines_def)
  have log: "fst (summarizeContent w two_lines ttl research) =
       [GenerateText fastModel None (chunk_prompt ttl research 0 2 (replicate 50 0x61)),
        GenerateText fastModel None (chunk_prompt ttl research 1 2 (replicate 50 0x61))]
       @ (case collect [generateText w fastModel None (chunk_prompt ttl research 0 2 (replicate 50 0x61)),
                        generateText w fastModel None (chunk_prompt ttl research 1 2 (replicate 50 0x61))] of
            Inl e \<Rightarrow> []
          | Inr chunkSummaries \<Rightarrow> [GenerateText fastModel None (combine_prompt ttl research chunkSummaries)])" for w
    unfolding summarizeContent_log match_chunks_two_lines
    by (auto simp: enumerate_eq_zip upt_conv_Cons eval_nat_numeral split: sum.splits dest: collect_length)
  have "length (fst (summarizeContent (world_of f sel) two_lines ttl research)) = 3"
    unfolding log by (simp add: world_of_def)
  with len log match_chunks_two_lines show ?thesis by (simp add: chunkSize_def)
qed

text \<open>
  C9. A content of 100 newline characters passes the length check of \<open>fetchWebContent\<close>
  (it is not empty and not shorter than 100), the chunking gives no chunk at all, and
  \<open>summarizeContent\<close> then issues no call and resolves to \<open>undefined\<close>, which is not a string.
\<close>

theorem summarizeContent_undefined:
  "replicate 100 (0x0A :: 16 word) \<noteq> []
   \<and> length (replicate 100 (0x0A :: 16 word)) = 100
   \<and> match_chunks chunkSize (replicate 100 0x0A) = []
   \<and> summarizeContent w (replicate 100 0x0A) ttl research = ([], Inr None)"
proof -
  have m: "match_chunks chunkSize (replicate 100 0x0A) = []"
    by (rule match_chunks_terminators) (simp add: line_terminator_def)
  have "summarizeContent w (replicate 100 0x0A) ttl research = ([], Inr None)"
    unfolding summarizeContent_def m
    by (simp add: enumerate_eq_zip Promise_all_def await_def ret_def)
  with m show ?thesis by simp
qed

section \<open>The search loop\<close>

lemma search_pages_beyond: "MAX_PAGES < page \<Longrightarrow> search_pages w research page acc = ([], Inr acc)"
  by (subst search_pages.simps) simp

lemma search_pages_empty:
  "page \<le> MAX_PAGES \<Longrightarrow> search_page w research page = Inr [] \<Longrightarrow>
   search_pages w research page acc = ([Fetch (search_request research page)], Inr acc)"
  by (subst search_pages.simps) (auto simp: search_page_def split: sum.splits option.splits)

lemma search_pages_hits:
  "page \<le> MAX_PAGES \<Longrightarrow> search_page w research page = Inr rs \<Longrightarrow> rs \<noteq> [] \<Longrightarrow>
   search_pages w research page acc =
     (Fetch (search_request research page) # fst (search_pages w research (page + 1) (acc @ rs)),
      snd (search_pages w research (page + 1) (acc @ rs)))"
  by (subst search_pages.simps) (auto simp: search_page_def split: sum.splits option.splits prod.splits)

lemma search_pages_from:
  assumes "page + k \<le> Suc MAX_PAGES"
    and "\<forall>p. page \<le> p \<and> p < page + k \<longrightarrow> search_page w research p = Inr (hits p) \<and> hits p \<noteq> []"
    and "page + k \<le> MAX_PAGES \<longrightarrow> search_page w research (page + k) = Inr []"
  shows "search_pages w research page acc =
           (map (\<lambda>p. Fetch (search_request research p)) [page ..< Suc (min (page + k) MAX_PAGES)],
            Inr (acc @ concat (map hits [page ..< page + k])))"
  using assms
proof (induction k arbitrary: page acc)
  case 0
  show ?case
  proof (cases "page \<le> MAX_PAGES")
    case True
    with 0 have "search_page w research page = Inr []" by simp
    from search_pages_empty[OF True this] True show ?thesis by (simp add: min_def)
  next
    case False
    then have "min page MAX_PAGES = MAX_PAGES" "MAX_PAGES < page" by simp_all
    with search_pages_beyond[of page w research acc] show ?thesis by simp
  qed
next
  case (Suc k)
  have le: "page \<le> MAX_PAGES" using Suc.prems(1) by simp
  have h: "search_page w research page = Inr (hits page)" "hits page \<noteq> []"
    using Suc.prems(2) by simp_all
  have IH: "search_pages w research (page + 1) (acc @ hits page) =
           (map (\<lambda>p. Fetch (search_request research p)) [page + 1 ..< Suc (min (page + 1 + k) MAX_PAGES)],
            Inr ((acc @ hits page) @ concat (map hits [page + 1 ..< page + 1 + k])))"
    by (rule Suc.IH) (use Suc.prems in auto)
  have up: "[page ..< Suc (min (page + Suc k) MAX_PAGES)] = page # [page + 1 ..< Suc (min (page + 1 + k) MAX_PAGES)]"
    using le by (simp add: upt_conv_Cons)
  have up2: "[page ..< page + Suc k] = page # [page + 1 ..< page + 1 + k]"
    by (simp add: upt_conv_Cons)
  show ?case
    unfolding search_pages_hits[OF le h] IH up up2 by simp
qed




section \<open>Fetching the selected pages\<close>

lemma fetchWebContent_log: "fst (fetchWebContent w u) = [Fetch (page_request u)]"
  by (simp add: fetchWebContent_def await_def call_def ret_def split: sum.splits option.splits)

lemma fetchWebContent_value:
  "snd (fetchWebContent w u) = Inr p \<Longrightarrow> p = valid_page w u"
  by (auto simp: fetchWebContent_def valid_page_def await_def call_def ret_def
        split: sum.splits option.splits if_splits)

lemma fetchWebContent_returns:
  assumes "fetch w (page_request u) = Inr res" "status res = 200 \<longrightarrow> (\<exists>d. json res = Inr d)"
  shows "snd (fetchWebContent w u) = Inr (valid_page w u)"
  using assms
  by (auto simp: fetchWebContent_def valid_page_def await_def call_def ret_def
        split: sum.splits option.splits if_splits)

lemma fetchWebContent_dropped:
  assumes "fetch w (page_request u) = Inr res"
    and "status res \<noteq> 200 \<or> (\<exists>d. json res = Inr d \<and> (content d = None \<or> (\<exists>c. content d = Some c \<and> length c < 100)))"
  shows "fetchWebContent w u = ([Fetch (page_request u)], Inr None)"
  using assms
  by (auto simp: fetchWebContent_def await_def call_def ret_def
        split: sum.splits option.splits if_splits)

lemma fetch_stage_value:
  "snd (Promise_all (map (fetchWebContent w) urls)) = Inr contents \<Longrightarrow> contents = map (valid_page w) urls"
proof -
  assume "snd (Promise_all (map (fetchWebContent w) urls)) = Inr contents"
  then have eq: "map (\<lambda>u. snd (fetchWebContent w u)) urls = map Inr contents"
    by (simp add: Promise_all_value comp_def)
  then have len: "length contents = length urls" by (metis length_map)
  show ?thesis
  proof (rule nth_equalityI)
    show "length contents = length (map (valid_page w) urls)" using len by simp
  next
    fix i assume "i < length contents"
    then have i: "i < length urls" using len by simp
    from eq have "map (\<lambda>u. snd (fetchWebContent w u)) urls ! i = map Inr contents ! i" by simp
    with i len have "snd (fetchWebContent w (urls ! i)) = Inr (contents ! i)" by simp
    from fetchWebContent_value[OF this] i show "contents ! i = map (valid_page w) urls ! i" by simp
  qed
qed

lemma fetch_stage_returns:
  assumes "\<forall>u\<in>set urls. \<exists>res. fetch w (page_request u) = Inr res
             \<and> (status res = 200 \<longrightarrow> (\<exists>d. json res = Inr d))"
  shows "snd (Promise_all (map (fetchWebContent w) urls)) = Inr (map (valid_page w) urls)"
  by (rule Promise_all_map) (use assms fetchWebContent_returns in blast)

lemma valid_page_SomeD:
  assumes "valid_page w u = Some p"
  shows "\<exists>res d c. fetch w (page_request u) = Inr res \<and> status res = 200 \<and> json res = Inr d
           \<and> content d = Some c \<and> 100 \<le> length c
           \<and> p = \<lparr>wc_title = data_title d, wc_content = c, wc_url = data_url d\<rparr>"
  using assms by (auto simp: valid_page_def split: sum.splits option.splits if_splits)

section \<open>The web task\<close>

text \<open>The stages of a web task.\<close>

lemma processWebResearch_value:
  "snd (processWebResearch w research) = Inr r \<longleftrightarrow>
     (\<exists>hits urls contents sums a.
        snd (search_pages w research 1 []) = Inr hits
      \<and> snd (getRelevantUrls w hits research) = Inr urls
      \<and> snd (Promise_all (map (fetchWebContent w) urls)) = Inr contents
      \<and> snd (Promise_all (map (\<lambda>c. summarizeContent w (wc_content c) (wc_title c) research)
                 (List.map_filter (\<lambda>c. c) contents))) = Inr sums
      \<and> generateText w fastModel None (answer_prompt research sums) = Inr a
      \<and> r = \<lparr>answer = a, references = map reference_of (List.map_filter (\<lambda>c. c) contents)\<rparr>)"
  unfolding processWebResearch_def Let_def snd_await_Inr
  by (auto simp: call_def ret_def)

lemma processWebResearch_log:
  assumes "search_pages w research 1 [] = (l1, Inr hits)"
    and "getRelevantUrls w hits research = (l2, Inr urls)"
    and "snd (Promise_all (map (fetchWebContent w) urls)) = Inr contents"
    and "Promise_all (map (\<lambda>c. summarizeContent w (wc_content c) (wc_title c) research)
                 (List.map_filter (\<lambda>c. c) contents)) = (l4, Inr sums)"
  shows "fst (processWebResearch w research) =
           l1 @ l2 @ map (\<lambda>u. Fetch (page_request u)) urls @ l4
           @ [GenerateText fastModel None (answer_prompt research sums)]"
proof -
  have f: "Promise_all (map (fetchWebContent w) urls) = (map (\<lambda>u. Fetch (page_request u)) urls, Inr contents)"
    using assms(3) by (simp add: prod_eq_iff Promise_all_log comp_def fetchWebContent_log)
  have g: "fst (await (call ev r) (\<lambda>generated. ret (k generated))) = [ev]" for ev r and k :: "ustring \<Rightarrow> ResearchSummary"
    by (simp add: await_def call_def ret_def split: sum.splits)
  show ?thesis
    unfolding processWebResearch_def Let_def
    apply (subst await_Inr[OF assms(1)])
    apply (subst await_Inr[OF assms(2)])
    apply (subst await_Inr[OF f])
    apply (subst await_Inr[OF assms(4)])
    apply (simp add: g)
    done
qed

lemma summarize_stage_returns:
  assumes "\<forall>m s p. \<exists>t. generateText w m s p = Inr t"
  shows "\<exists>sums. snd (Promise_all (map (\<lambda>c. summarizeContent w (wc_content c) (wc_title c) research) cs))
           = Inr sums"
proof -
  have "snd (summarizeContent w c ttl research) = Inr (projr (snd (summarizeContent w c ttl research)))"
    for c ttl
    using summarizeContent_returns[OF assms, of c ttl research] by auto
  then have "snd (Promise_all (map (\<lambda>c. summarizeContent w (wc_content c) (wc_title c) research) cs))
           = Inr (map (\<lambda>c. projr (snd (summarizeContent w (wc_content c) (wc_title c) research))) cs)"
    by (intro Promise_all_map) simp
  then show ?thesis by blast
qed

lemma processWebResearch_returns:
  assumes "snd (search_pages w research 1 []) = Inr hits"
    and "snd (getRelevantUrls w hits research) = Inr urls"
    and "\<forall>u\<in>set urls. \<exists>res. fetch w (page_request u) = Inr res
           \<and> (status res = 200 \<longrightarrow> (\<exists>d. json res = Inr d))"
    and "\<forall>m s p. \<exists>t. generateText w m s p = Inr t"
  shows "\<exists>r. snd (processWebResearch w research) = Inr r
              \<and> references r = map reference_of (List.map_filter (valid_page w) urls)"
proof -
  let ?contents = "map (valid_page w) urls"
  have f: "snd (Promise_all (map (fetchWebContent w) urls)) = Inr ?contents"
    by (rule fetch_stage_returns[OF assms(3)])
  from summarize_stage_returns[OF assms(4)] obtain sums where
    s: "snd (Promise_all (map (\<lambda>c. summarizeContent w (wc_content c) (wc_title c) research)
              (List.map_filter (\<lambda>c. c) ?contents))) = Inr sums" by blast
  from assms(4) obtain a where a: "generateText w fastModel None (answer_prompt research sums) = Inr a"
    by blast
  have "snd (processWebResearch w research)
          = Inr \<lparr>answer = a, references = map reference_of (List.map_filter (\<lambda>c. c) ?contents)\<rparr>"
    unfolding processWebResearch_value using assms(1,2) f s a by blast
  then show ?thesis
    by (simp add: map_filter_map)
qed

lemma processWebResearch_references:
  assumes "snd (processWebResearch w research) = Inr r"
  shows "\<exists>hits urls. snd (search_pages w research 1 []) = Inr hits
           \<and> snd (getRelevantUrls w hits research) = Inr urls
           \<and> references r = map reference_of (List.map_filter (valid_page w) urls)"
proof -
  from assms obtain hits urls contents where
    h: "snd (search_pages w research 1 []) = Inr hits"
       "snd (getRelevantUrls w hits research) = Inr urls"
       "snd (Promise_all (map (fetchWebContent w) urls)) = Inr contents"
       "references r = map reference_of (List.map_filter (\<lambda>c. c) contents)"
    unfolding processWebResearch_value by auto
  from fetch_stage_value[OF h(3)] h(4)
  have "references r = map reference_of (List.map_filter (valid_page w) urls)"
    by (simp add: map_filter_map)
  with h(1,2) show ?thesis by blast
qed

lemma processWebResearch_fetch_rejects:
  assumes "search_pages w research 1 [] = (l1, Inr hits)"
    and "snd (getRelevantUrls w hits research) = Inr urls"
    and "snd (Promise_all (map (fetchWebContent w) urls)) = Inl e"
  shows "snd (processWebResearch w research) = Inl e"
proof -
  have g: "getRelevantUrls w hits research = (fst (getRelevantUrls w hits research), Inr urls)"
    using assms(2) by (simp add: prod_eq_iff)
  have f: "Promise_all (map (fetchWebContent w) urls) = (fst (Promise_all (map (fetchWebContent w) urls)), Inl e)"
    using assms(3) by (simp add: prod_eq_iff)
  show ?thesis
    unfolding processWebResearch_def Let_def
    by (simp only: await_Inr[OF assms(1)] await_Inr[OF g] await_Inl[OF f] snd_conv)
qed

section \<open>The concrete worlds\<close>

lemma fetch_site:
  "fetch (world_of (site page) sel) (page_request (lit ''x'')) = page"
  "fetch (world_of (site page) sel) (page_request (lit ''y'')) = page_body 200 (Some letters) ''Y'' ''y''"
  by (simp_all add: world_of_def site_def lit_def)

lemma search_page_site:
  "search_page (world_of (site page) sel) web_task 1 = Inr [hit ''x'']"
  "search_page (world_of (site page) sel) web_task 2 = Inr []"
  by (simp_all add: search_page_def world_of_def site_def search_body_def show_nat_digit)

lemma search_pages_site:
  "search_pages (world_of (site page) sel) web_task 1 [] =
     ([Fetch (search_request web_task 1), Fetch (search_request web_task 2)], Inr [hit ''x''])"
proof -
  have "search_pages (world_of (site page) sel) web_task 1 [] =
          (map (\<lambda>p. Fetch (search_request web_task p)) [1 ..< Suc (min (1 + 1) MAX_PAGES)],
           Inr ([] @ concat (map (\<lambda>p. [hit ''x'']) [1 ..< 1 + 1])))"
  proof (rule search_pages_from)
    show "(1::nat) + 1 \<le> Suc MAX_PAGES" by (simp add: MAX_PAGES_def)
    show "\<forall>p. 1 \<le> p \<and> p < 1 + 1 \<longrightarrow>
            search_page (world_of (site page) sel) web_task p = Inr [hit ''x''] \<and> [hit ''x''] \<noteq> []"
    proof (intro allI impI)
      fix p :: nat assume "1 \<le> p \<and> p < 1 + 1"
      then have "p = 1" by simp
      then show "search_page (world_of (site page) sel) web_task p = Inr [hit ''x''] \<and> [hit ''x''] \<noteq> []"
        using search_page_site(1) by simp
    qed
    have "(1::nat) + 1 = 2" by simp
    then show "(1::nat) + 1 \<le> MAX_PAGES \<longrightarrow> search_page (world_of (site page) sel) web_task (1 + 1) = Inr []"
      using search_page_site(2) by metis
  qed
  moreover have "[1 ..< Suc (min (1 + 1) MAX_PAGES)] = [1, 2]" "[1 ..< 1 + 1] = [1::nat]"
    by (simp_all add: MAX_PAGES_def upt_conv_Cons numeral_2_eq_2)
  ultimately show ?thesis by simp
qed

lemma getRelevantUrls_world_of:
  "snd (getRelevantUrls (world_of f sel) hits research) = sel"
  "length (fst (getRelevantUrls (world_of f sel) hits research)) = 1"
  by (simp_all add: getRelevantUrls_def Let_def call_def world_of_def)

lemma sel_world:
  "snd (search_pages (world_of (site page) sel) web_task 1 []) = Inr [hit ''x'']"
  "\<forall>m s p. \<exists>t. generateText (world_of f sel) m s p = Inr t"
  by (subst search_pages_site) (simp_all add: world_of_def)

lemma valid_page_y:
  "valid_page (world_of (site page) sel) (lit ''y'') =
     Some \<lparr>wc_title = lit ''Y'', wc_content = letters, wc_url = lit ''y''\<rparr>"
  by (simp add: valid_page_def fetch_site page_body_def letters_def)

lemma valid_page_x_404:
  "valid_page (world_of (site (page_body 404 None [] [])) sel) (lit ''x'') = None"
  by (simp add: valid_page_def fetch_site page_body_def)

lemma valid_page_x_short:
  "valid_page (world_of (site (page_body 200 (Some (replicate 99 0x61)) ''X'' ''x'')) sel) (lit ''x'') = None"
  by (simp add: valid_page_def fetch_site page_body_def)

section \<open>Page fetches that fail\<close>

text \<open>
  C1 fails for exceptions: when the request for a selected page throws, or when the body of a
  response with status 200 cannot be parsed, the task itself is rejected with that error, even
  though the other selected page is valid.
\<close>

theorem fetch_exception_fails_task:
  "snd (processWebResearch (world_of (site (Inl NetworkError)) (Inr [lit ''x'', lit ''y''])) web_task)
     = Inl NetworkError
   \<and> snd (processWebResearch
            (world_of (site (Inr \<lparr>status = 200, json = Inl JsonSyntaxError\<rparr>)) (Inr [lit ''x'', lit ''y'']))
            web_task)
     = Inl JsonSyntaxError"
proof -
  have a: "snd (fetchWebContent (world_of (site (Inl NetworkError)) sel) (lit ''x'')) = Inl NetworkError" for sel
    by (simp add: fetchWebContent_def await_def call_def fetch_site)
  have b: "snd (fetchWebContent (world_of (site (Inr \<lparr>status = 200, json = Inl JsonSyntaxError\<rparr>)) sel) (lit ''x''))
             = Inl JsonSyntaxError" for sel
    by (simp add: fetchWebContent_def await_def call_def fetch_site)
  have "snd (processWebResearch (world_of (site (Inl NetworkError)) (Inr [lit ''x'', lit ''y''])) web_task)
          = Inl NetworkError"
    by (rule processWebResearch_fetch_rejects[OF search_pages_site getRelevantUrls_world_of(1)])
       (simp add: Promise_all_def a)
  moreover
  have "snd (processWebResearch
            (world_of (site (Inr \<lparr>status = 200, json = Inl JsonSyntaxError\<rparr>)) (Inr [lit ''x'', lit ''y'']))
            web_task) = Inl JsonSyntaxError"
    by (rule processWebResearch_fetch_rejects[OF search_pages_site getRelevantUrls_world_of(1)])
       (simp add: Promise_all_def b)
  ultimately show ?thesis by simp
qed

text \<open>
  C1, amended. When the search and the selection of URLs return, no request for a selected page
  throws, no body of a response with status 200 fails to parse, and the text service answers,
  then every selected page that is not valid (status other than 200, content missing or shorter
  than 100) is resolved to \<open>null\<close> by \<open>fetchWebContent\<close> without an error, and the task returns a
  result whose references are those of the remaining, valid pages.
\<close>

theorem fetch_failure_without_exception_is_omitted:
  assumes "snd (search_pages w research 1 []) = Inr hits"
    and "snd (getRelevantUrls w hits research) = Inr urls"
    and "\<forall>u\<in>set urls. \<exists>res. fetch w (page_request u) = Inr res
           \<and> (status res = 200 \<longrightarrow> (\<exists>d. json res = Inr d))"
    and "\<forall>m s p. \<exists>t. generateText w m s p = Inr t"
  shows "(\<forall>u\<in>set urls. valid_page w u = None \<longrightarrow>
            fetchWebContent w u = ([Fetch (page_request u)], Inr None))
       \<and> (\<exists>r. snd (processWebResearch w research) = Inr r
              \<and> references r = map reference_of (List.map_filter (valid_page w) urls))"
proof (intro conjI ballI impI)
  fix u assume u: "u \<in> set urls" and none: "valid_page w u = None"
  from assms(3) u obtain res where res: "fetch w (page_request u) = Inr res"
    "status res = 200 \<longrightarrow> (\<exists>d. json res = Inr d)" by blast
  from fetchWebContent_returns[OF res] none
  show "fetchWebContent w u = ([Fetch (page_request u)], Inr None)"
    by (simp add: prod_eq_iff fetchWebContent_log)
next
  show "\<exists>r. snd (processWebResearch w research) = Inr r
              \<and> references r = map reference_of (List.map_filter (valid_page w) urls)"
    by (rule processWebResearch_returns[OF assms])
qed

text \<open>
  Two selected pages, the first answered with status 404, the second valid: the first is
  dropped and the task returns the reference of the second.
\<close>

theorem fetch_failure_without_exception_is_omitted_witness:
  "fetchWebContent (world_of (site (page_body 404 None [] [])) (Inr [lit ''x'', lit ''y''])) (lit ''x'')
     = ([Fetch (page_request (lit ''x''))], Inr None)
   \<and> map_sum id references
        (snd (processWebResearch (world_of (site (page_body 404 None [] [])) (Inr [lit ''x'', lit ''y''])) web_task))
     = Inr [\<lparr>ref_url = lit ''y'', ref_title = lit ''Y''\<rparr>]"
proof -
  let ?w = "world_of (site (page_body 404 None [] [])) (Inr [lit ''x'', lit ''y''])"
  have 1: "snd (search_pages ?w web_task 1 []) = Inr [hit ''x'']" by (subst search_pages_site) simp
  have 2: "snd (getRelevantUrls ?w [hit ''x''] web_task) = Inr [lit ''x'', lit ''y'']"
    by (rule getRelevantUrls_world_of)
  have 3: "\<forall>u\<in>set [lit ''x'', lit ''y'']. \<exists>res. fetch ?w (page_request u) = Inr res
           \<and> (status res = 200 \<longrightarrow> (\<exists>d. json res = Inr d))"
    by (simp add: fetch_site page_body_def)
  have 4: "\<forall>m s p. \<exists>t. generateText ?w m s p = Inr t" by (simp add: world_of_def)
  show ?thesis
    using fetch_failure_without_exception_is_omitted[OF 1 2 3 4]
    by (auto simp: valid_page_x_404 valid_page_y reference_of_def)
qed

section \<open>References\<close>

text \<open>
  C4. In the result of any task, a model-only task has no reference, and the references of a
  web task are exactly the (url, title) pairs of the valid pages among the selected URLs, in
  the order of selection; they do not depend on the answer. So every reference comes from a
  selected URL whose request returned with status 200 and a content of at least 100 units: a
  page with another status, without content or with a shorter content gives no reference.
\<close>

theorem references_are_the_valid_pages:
  assumes "snd (process_research w research) = Inr r"
  shows "rtype research = Ai \<and> references r = []
       \<or> rtype research = Web
         \<and> (\<exists>hits urls.
               snd (search_pages w research 1 []) = Inr hits
             \<and> snd (getRelevantUrls w hits research) = Inr urls
             \<and> references r = map reference_of (List.map_filter (valid_page w) urls)
             \<and> (\<forall>ref\<in>set (references r). \<exists>u\<in>set urls. \<exists>res d c.
                    fetch w (page_request u) = Inr res \<and> status res = 200 \<and> json res = Inr d
                  \<and> content d = Some c \<and> 100 \<le> length c
                  \<and> ref = \<lparr>ref_url = data_url d, ref_title = data_title d\<rparr>))"
proof (cases "rtype research")
  case Ai
  with assms have "references r = []"
    by (auto simp: process_research_def processAiResearch_def await_def call_def ret_def split: sum.splits)
  with Ai show ?thesis by simp
next
  case Web
  with assms have "snd (processWebResearch w research) = Inr r" by (simp add: process_research_def)
  from processWebResearch_references[OF this] obtain hits urls where
    h: "snd (search_pages w research 1 []) = Inr hits" "snd (getRelevantUrls w hits research) = Inr urls"
       "references r = map reference_of (List.map_filter (valid_page w) urls)" by blast
  have "\<exists>u\<in>set urls. \<exists>res d c.
                    fetch w (page_request u) = Inr res \<and> status res = 200 \<and> json res = Inr d
                  \<and> content d = Some c \<and> 100 \<le> length c
                  \<and> ref = \<lparr>ref_url = data_url d, ref_title = data_title d\<rparr>"
    if "ref \<in> set (references r)" for ref
  proof -
    from that h(3) obtain u where u: "u \<in> set urls" and "\<exists>p. valid_page w u = Some p \<and> ref = reference_of p"
      by (auto simp: set_map_filter)
    then obtain p where p: "valid_page w u = Some p" "ref = reference_of p" by blast
    from valid_page_SomeD[OF p(1)] obtain res d c where
      "fetch w (page_request u) = Inr res" "status res = 200" "json res = Inr d"
      "content d = Some c" "100 \<le> length c"
      "p = \<lparr>wc_title = data_title d, wc_content = c, wc_url = data_url d\<rparr>" by blast
    moreover from this p(2) have "ref = \<lparr>ref_url = data_url d, ref_title = data_title d\<rparr>"
      by (simp add: reference_of_def)
    ultimately show ?thesis using u by blast
  qed
  with Web h show ?thesis by blast
qed

text \<open>
  Two selected pages, the first with status 200 and a content of 99 units, the second valid:
  only the second is referenced.
\<close>

theorem references_are_the_valid_pages_witness:
  "map_sum id references
     (snd (process_research
        (world_of (site (page_body 200 (Some (replicate 99 0x61)) ''X'' ''x'')) (Inr [lit ''x'', lit ''y'']))
        web_task))
   = Inr [\<lparr>ref_url = lit ''y'', ref_title = lit ''Y''\<rparr>]"
proof -
  let ?w = "world_of (site (page_body 200 (Some (replicate 99 0x61)) ''X'' ''x'')) (Inr [lit ''x'', lit ''y''])"
  have 1: "snd (search_pages ?w web_task 1 []) = Inr [hit ''x'']" by (subst search_pages_site) simp
  have 2: "snd (getRelevantUrls ?w hits web_task) = Inr [lit ''x'', lit ''y'']" for hits
    by (rule getRelevantUrls_world_of)
  have 3: "\<forall>u\<in>set [lit ''x'', lit ''y'']. \<exists>res. fetch ?w (page_request u) = Inr res
           \<and> (status res = 200 \<longrightarrow> (\<exists>d. json res = Inr d))"
    by (simp add: fetch_site page_body_def)
  have 4: "\<forall>m s p. \<exists>t. generateText ?w m s p = Inr t" by (simp add: world_of_def)
  from processWebResearch_returns[OF 1 2 3 4] obtain r where
    r: "snd (process_research ?w web_task) = Inr r"
    by (auto simp: process_research_def web_task_def)
  have web: "rtype web_task = Web" by (simp add: web_task_def)
  from references_are_the_valid_pages[OF r] web 1 2
  have "references r = map reference_of (List.map_filter (valid_page ?w) [lit ''x'', lit ''y''])"
    by auto
  then have "references r = [\<lparr>ref_url = lit ''y'', ref_title = lit ''Y''\<rparr>]"
    by (simp add: valid_page_x_short valid_page_y reference_of_def)
  with r show ?thesis by simp
qed




section \<open>A web task without a valid page\<close>

lemma no_hits_world:
  "search_pages (world_of (no_hits page) sel) web_task 1 [] =
     ([Fetch (search_request web_task 1)], Inr [])"
  "fetch (world_of (no_hits page) sel) (page_request (lit ''y'')) = page"
proof -
  have p: "search_page (world_of (no_hits page) sel) web_task 1 = Inr []"
    by (simp add: search_page_def world_of_def no_hits_def search_body_def)
  show "search_pages (world_of (no_hits page) sel) web_task 1 [] =
     ([Fetch (search_request web_task 1)], Inr [])"
    by (rule search_pages_empty[OF _ p]) (simp add: MAX_PAGES_def)
  show "fetch (world_of (no_hits page) sel) (page_request (lit ''y'')) = page"
    by (simp add: world_of_def no_hits_def)
qed

text \<open>
  C7 fails in two ways. With no search hit on any page the selector is still asked, and when
  it answers the URL \<open>y\<close>, whose page is valid, the task returns the reference of \<open>y\<close>: zero
  search hits do not give empty references. And when the request for the only selected URL
  throws, no URL survives the fetching, yet the task is rejected with the error and returns
  no result.
\<close>

theorem zero_hits_referenced_and_thrown_fetch_rejects:
  "snd (search_pages (world_of (no_hits (page_body 200 (Some letters) ''Y'' ''y'')) (Inr [lit ''y'']))
          web_task 1 []) = Inr []
   \<and> map_sum id references
        (snd (processWebResearch
                (world_of (no_hits (page_body 200 (Some letters) ''Y'' ''y'')) (Inr [lit ''y'']))
                web_task))
       = Inr [\<lparr>ref_url = lit ''y'', ref_title = lit ''Y''\<rparr>]
   \<and> snd (search_pages (world_of (no_hits (Inl NetworkError)) (Inr [lit ''y''])) web_task 1 []) = Inr []
   \<and> snd (processWebResearch (world_of (no_hits (Inl NetworkError)) (Inr [lit ''y''])) web_task)
       = Inl NetworkError"
proof -
  let ?v = "world_of (no_hits (page_body 200 (Some letters) ''Y'' ''y'')) (Inr [lit ''y''])"
  let ?t = "world_of (no_hits (Inl NetworkError)) (Inr [lit ''y''])"
  have s: "snd (search_pages (world_of (no_hits page) sel) web_task 1 []) = Inr []" for page sel
    by (subst no_hits_world) simp
  have 3: "\<forall>u\<in>set [lit ''y'']. \<exists>res. fetch ?v (page_request u) = Inr res
           \<and> (status res = 200 \<longrightarrow> (\<exists>d. json res = Inr d))"
    by (simp add: no_hits_world page_body_def)
  have vy: "valid_page ?v (lit ''y'')
              = Some \<lparr>wc_title = lit ''Y'', wc_content = letters, wc_url = lit ''y''\<rparr>"
    by (simp add: valid_page_def no_hits_world page_body_def letters_def)
  from processWebResearch_returns[OF s getRelevantUrls_world_of(1) 3 sel_world(2)]
  have a: "map_sum id references (snd (processWebResearch ?v web_task))
             = Inr [\<lparr>ref_url = lit ''y'', ref_title = lit ''Y''\<rparr>]"
    by (auto simp: vy reference_of_def)
  have t: "snd (fetchWebContent ?t (lit ''y'')) = Inl NetworkError"
    by (simp add: fetchWebContent_def await_def call_def no_hits_world)
  have b: "snd (processWebResearch ?t web_task) = Inl NetworkError"
    by (rule processWebResearch_fetch_rejects[OF no_hits_world(1) getRelevantUrls_world_of(1)])
       (simp add: Promise_all_def t)
  from a b s show ?thesis by simp
qed

text \<open>
  C7, amended. When the search and the selection return, and every selected URL (if there is
  one) is answered without an exception by a response whose status is not 200 or whose body has
  no content or a content shorter than 100, then no page is valid, the task still issues the
  final call to the text service, with the prompt built from an empty list of summaries, and,
  when that call returns, the task returns its text as the answer with an empty list of
  references.
\<close>

theorem no_valid_page_still_answers:
  assumes "search_pages w research 1 [] = (l1, Inr hits)"
    and "getRelevantUrls w hits research = (l2, Inr urls)"
    and "\<forall>u\<in>set urls. \<exists>res. fetch w (page_request u) = Inr res
           \<and> (status res \<noteq> 200
              \<or> (\<exists>d. json res = Inr d
                   \<and> (content d = None \<or> (\<exists>c. content d = Some c \<and> length c < 100))))"
    and "generateText w fastModel None (answer_prompt research []) = Inr a"
  shows "processWebResearch w research =
           (l1 @ l2 @ map (\<lambda>u. Fetch (page_request u)) urls
              @ [GenerateText fastModel None (answer_prompt research [])],
            Inr \<lparr>answer = a, references = []\<rparr>)
       \<and> answer_prompt research [] =
           lit ''You're conducting a research on '' @ title research
           @ lit ''. Your objective is '' @ objectives research
           @ lit ''. Here is the expected outcomes: '' @ expectedOutcomes research
           @ lit ''. Based on the following summaries from different sources, provide a comprehensive answer:\<newline>\<newline>''"
proof -
  have n: "snd (fetchWebContent w u) = Inr None" if "u \<in> set urls" for u
  proof -
    from assms(3) that obtain res where
      "fetch w (page_request u) = Inr res"
      "status res \<noteq> 200
       \<or> (\<exists>d. json res = Inr d \<and> (content d = None \<or> (\<exists>c. content d = Some c \<and> length c < 100)))"
      by blast
    from fetchWebContent_dropped[OF this] show ?thesis by simp
  qed
  have f: "snd (Promise_all (map (fetchWebContent w) urls)) = Inr (map (\<lambda>u. None) urls)"
    by (rule Promise_all_map) (use n in simp)
  have dropped: "List.map_filter (\<lambda>c. c) (map (\<lambda>u. None) urls) = ([] :: WebContent list)"
    by (induction urls) simp_all
  have s: "Promise_all (map (\<lambda>c. summarizeContent w (wc_content c) (wc_title c) research)
             (List.map_filter (\<lambda>c. c) (map (\<lambda>u. None :: WebContent option) urls))) = ([], Inr [])"
    by (subst dropped) (simp add: Promise_all_def)
  have log: "fst (processWebResearch w research) =
           l1 @ l2 @ map (\<lambda>u. Fetch (page_request u)) urls @ []
              @ [GenerateText fastModel None (answer_prompt research [])]"
    by (rule processWebResearch_log[OF assms(1,2) f s])
  have val: "snd (processWebResearch w research) = Inr \<lparr>answer = a, references = []\<rparr>"
    unfolding processWebResearch_value
    using assms(1,2,4) f s by (auto simp: dropped)
  have "answer_prompt research [] =
           lit ''You're conducting a research on '' @ title research
           @ lit ''. Your objective is '' @ objectives research
           @ lit ''. Here is the expected outcomes: '' @ expectedOutcomes research
           @ lit ''. Based on the following summaries from different sources, provide a comprehensive answer:\<newline>\<newline>''"
    by (simp add: answer_prompt_def)
  with log val show ?thesis by (simp add: prod_eq_iff)
qed

text \<open>
  No search hit; the selector answers \<open>y\<close>, whose page comes with status 404: the page is
  requested and dropped, and the task returns the answer to the prompt without summaries and
  no reference. The same holds when the selector answers no URL at all.
\<close>

theorem no_valid_page_still_answers_witness:
  "processWebResearch (world_of (no_hits (page_body 404 None [] [])) (Inr [lit ''y''])) web_task =
     ([Fetch (search_request web_task 1)]
        @ fst (getRelevantUrls (world_of (no_hits (page_body 404 None [] [])) (Inr [lit ''y''])) [] web_task)
        @ [Fetch (page_request (lit ''y'')), GenerateText fastModel None (answer_prompt web_task [])],
      Inr \<lparr>answer = answer_prompt web_task [], references = []\<rparr>)
   \<and> processWebResearch (world_of (no_hits (page_body 404 None [] [])) (Inr [])) web_task =
     ([Fetch (search_request web_task 1)]
        @ fst (getRelevantUrls (world_of (no_hits (page_body 404 None [] [])) (Inr [])) [] web_task)
        @ [GenerateText fastModel None (answer_prompt web_task [])],
      Inr \<lparr>answer = answer_prompt web_task [], references = []\<rparr>)"
proof -
  let ?w = "world_of (no_hits (page_body 404 None [] [])) (Inr [lit ''y''])"
  let ?e = "world_of (no_hits (page_body 404 None [] [])) (Inr [])"
  have 2: "getRelevantUrls (world_of f sel) [] web_task
             = (fst (getRelevantUrls (world_of f sel) [] web_task), sel)" for f sel
    by (simp add: prod_eq_iff getRelevantUrls_world_of)
  have 3: "\<forall>u\<in>set [lit ''y'']. \<exists>res. fetch ?w (page_request u) = Inr res
           \<and> (status res \<noteq> 200
              \<or> (\<exists>d. json res = Inr d
                   \<and> (content d = None \<or> (\<exists>c. content d = Some c \<and> length c < 100))))"
    by (simp add: no_hits_world page_body_def)
  have 5: "\<forall>u\<in>set []. \<exists>res. fetch ?e (page_request u) = Inr res
           \<and> (status res \<noteq> 200
              \<or> (\<exists>d. json res = Inr d
                   \<and> (content d = None \<or> (\<exists>c. content d = Some c \<and> length c < 100))))"
    by simp
  have 4: "generateText (world_of f sel) fastModel None (answer_prompt web_task [])
             = Inr (answer_prompt web_task [])" for f sel
    by (simp add: world_of_def)
  from no_valid_page_still_answers[OF no_hits_world(1) 2 3 4]
       no_valid_page_still_answers[OF no_hits_world(1) 2 5 4]
  show ?thesis by simp
qed

section \<open>The model-only task\<close>

text \<open>
  C8. For a task of kind ai, \<open>processAiResearch\<close> issues one call, to the text service, with the
  fast model, no system instruction and the task's query as the whole prompt; when the call
  returns, the result carries its text as the answer and an empty list of references, and when
  it throws, the error is passed on.
\<close>

theorem processAiResearch_single_call:
  "processAiResearch w research =
     ([GenerateText fastModel None (query research)],
      case generateText w fastModel None (query research) of
        Inl e \<Rightarrow> Inl e
      | Inr generated \<Rightarrow> Inr \<lparr>answer = generated, references = []\<rparr>)"
  by (simp add: processAiResearch_def await_def call_def ret_def split: sum.splits)

section \<open>The fan-out over the plan\<close>

lemma deepResearch_stages:
  assumes "generatePlan w flagshipModel (systemPrompt w) prompt = Inr plan"
    and "snd (process_plan w (researchPlan plan)) = Inr rs"
  shows "deepResearch w prompt =
           (GeneratePlan flagshipModel (systemPrompt w) prompt # fst (process_plan w (researchPlan plan))
              @ [GenerateText flagshipModel None (report_prompt plan rs)],
            generateText w flagshipModel None (report_prompt plan rs))"
proof -
  have p: "process_plan w (researchPlan plan) = (fst (process_plan w (researchPlan plan)), Inr rs)"
    using assms(2) by (simp add: prod_eq_iff)
  have c: "call (GeneratePlan flagshipModel (systemPrompt w) prompt)
             (generatePlan w flagshipModel (systemPrompt w) prompt)
           = ([GeneratePlan flagshipModel (systemPrompt w) prompt], Inr plan)"
    using assms(1) by (simp add: call_def)
  show ?thesis
    unfolding deepResearch_def Let_def
    by (simp only: await_Inr[OF c] await_Inr[OF p]) (simp add: call_def)
qed

text \<open>
  C3. The fan-out over the tasks of a plan runs every task once, in the order of the plan (its
  log is the concatenation of the logs of the tasks), a task of kind web by
  \<open>processWebResearch\<close> and a task of kind ai by \<open>processAiResearch\<close>. It returns results
  exactly when every task returns, and then there is one result per task, the \<open>i\<close>-th result
  being that of the \<open>i\<close>-th task; \<open>deepResearch\<close> passes these results, in this order, to the
  prompt of the report.
\<close>

theorem one_result_per_task:
  "fst (process_plan w tasks) = concat (map (\<lambda>t. fst (process_research w t)) tasks)
   \<and> (\<forall>t\<in>set tasks. process_research w t =
         (case rtype t of Web \<Rightarrow> processWebResearch w t | Ai \<Rightarrow> processAiResearch w t))
   \<and> (snd (process_plan w tasks) = Inr rs \<longleftrightarrow>
        length rs = length tasks
        \<and> (\<forall>i<length tasks. snd (process_research w (tasks ! i)) = Inr (rs ! i)))
   \<and> ((\<forall>t\<in>set tasks. \<exists>r. snd (process_research w t) = Inr r) \<longrightarrow>
        (\<exists>rs. snd (process_plan w tasks) = Inr rs))
   \<and> (generatePlan w flagshipModel (systemPrompt w) prompt = Inr plan \<and> tasks = researchPlan plan
        \<and> snd (process_plan w tasks) = Inr rs \<longrightarrow>
        deepResearch w prompt =
           (GeneratePlan flagshipModel (systemPrompt w) prompt # fst (process_plan w tasks)
              @ [GenerateText flagshipModel None (report_prompt plan rs)],
            generateText w flagshipModel None (report_prompt plan rs)))"
proof (intro conjI)
  show "fst (process_plan w tasks) = concat (map (\<lambda>t. fst (process_research w t)) tasks)"
    by (simp add: process_plan_def Promise_all_log comp_def)
  show "\<forall>t\<in>set tasks. process_research w t =
         (case rtype t of Web \<Rightarrow> processWebResearch w t | Ai \<Rightarrow> processAiResearch w t)"
    by (simp add: process_research_def split: ResearchType.splits)
  show "snd (process_plan w tasks) = Inr rs \<longleftrightarrow>
        length rs = length tasks
        \<and> (\<forall>i<length tasks. snd (process_research w (tasks ! i)) = Inr (rs ! i))"
    by (simp add: process_plan_def Promise_all_value_nth)
  show "(\<forall>t\<in>set tasks. \<exists>r. snd (process_research w t) = Inr r) \<longrightarrow>
        (\<exists>rs. snd (process_plan w tasks) = Inr rs)"
  proof
    assume "\<forall>t\<in>set tasks. \<exists>r. snd (process_research w t) = Inr r"
    then have "\<forall>t\<in>set tasks. snd (process_research w t) = Inr (projr (snd (process_research w t)))"
      by auto
    then have "snd (process_plan w tasks) = Inr (map (\<lambda>t. projr (snd (process_research w t))) tasks)"
      unfolding process_plan_def by (rule Promise_all_map)
    then show "\<exists>rs. snd (process_plan w tasks) = Inr rs" by blast
  qed
  show "generatePlan w flagshipModel (systemPrompt w) prompt = Inr plan \<and> tasks = researchPlan plan
        \<and> snd (process_plan w tasks) = Inr rs \<longrightarrow>
        deepResearch w prompt =
           (GeneratePlan flagshipModel (systemPrompt w) prompt # fst (process_plan w tasks)
              @ [GenerateText flagshipModel None (report_prompt plan rs)],
            generateText w flagshipModel None (report_prompt plan rs))"
    using deepResearch_stages by blast
qed

text \<open>
  A plan with a web task and a model-only task: two results, the first with the reference of
  the web task's valid page, the second with the model's answer and no reference.
\<close>

theorem one_result_per_task_witness:
  "map_sum id (map references)
     (snd (process_plan (world_of (site (page_body 404 None [] [])) (Inr [lit ''x'', lit ''y'']))
        [web_task, ai_task]))
     = Inr [[\<lparr>ref_url = lit ''y'', ref_title = lit ''Y''\<rparr>], []]
   \<and> map_sum id (\<lambda>rs. answer (rs ! 1))
     (snd (process_plan (world_of (site (page_body 404 None [] [])) (Inr [lit ''x'', lit ''y'']))
        [web_task, ai_task]))
     = Inr (lit ''why'')"
proof -
  let ?w = "world_of (site (page_body 404 None [] [])) (Inr [lit ''x'', lit ''y''])"
  have 3: "\<forall>u\<in>set [lit ''x'', lit ''y'']. \<exists>res. fetch ?w (page_request u) = Inr res
           \<and> (status res = 200 \<longrightarrow> (\<exists>d. json res = Inr d))"
    by (simp add: fetch_site page_body_def)
  from processWebResearch_returns[OF sel_world(1) getRelevantUrls_world_of(1) 3 sel_world(2)]
  obtain r1 where r1: "snd (process_research ?w web_task) = Inr r1"
    "references r1 = [\<lparr>ref_url = lit ''y'', ref_title = lit ''Y''\<rparr>]"
    by (auto simp: process_research_def web_task_def valid_page_x_404 valid_page_y
          reference_of_def)
  have r2: "snd (process_research ?w ai_task) = Inr \<lparr>answer = lit ''why'', references = []\<rparr>"
    by (simp add: process_research_def ai_task_def processAiResearch_def await_def call_def ret_def
          world_of_def)
  have "length [r1, \<lparr>answer = lit ''why'', references = []\<rparr>] = length [web_task, ai_task]
        \<and> (\<forall>i<length [web_task, ai_task]. snd (process_research ?w ([web_task, ai_task] ! i))
              = Inr ([r1, \<lparr>answer = lit ''why'', references = []\<rparr>] ! i))"
    using r1(1) r2 by (auto simp: less_Suc_eq)
  with one_result_per_task[of ?w "[web_task, ai_task]" "[r1, \<lparr>answer = lit ''why'', references = []\<rparr>]"]
  have "snd (process_plan ?w [web_task, ai_task]) = Inr [r1, \<lparr>answer = lit ''why'', references = []\<rparr>]"
    by blast
  then show ?thesis using r1(2) by simp
qed

section \<open>The prompt of the report\<close>

lemma join_nth:
  "i < length xs \<Longrightarrow> \<exists>before after. join sep xs = before @ xs ! i @ after"
proof (induction sep xs arbitrary: i rule: join.induct)
  case (1 sep)
  then show ?case by simp
next
  case (2 sep x)
  then have "join sep [x] = [] @ [x] ! i @ []" by simp
  then show ?case by blast
next
  case (3 sep x y ys)
  show ?case
  proof (cases i)
    case 0
    then have "join sep (x # y # ys) = [] @ (x # y # ys) ! i @ (sep @ join sep (y # ys))" by simp
    then show ?thesis by blast
  next
    case (Suc j)
    with 3 obtain b a where "join sep (y # ys) = b @ (y # ys) ! j @ a" by force
    with Suc have "join sep (x # y # ys) = (x @ sep @ b) @ (x # y # ys) ! i @ a" by simp
    then show ?thesis by blast
  qed
qed

text \<open>
  C10. The block of a task result in the prompt of the report always carries the header
  \<open>References:\<close> after the answer, followed by the joined entries: the guard is the truthiness
  of an array, which holds for the empty array too, so the empty branch is never taken. For a
  result without references, as every result of \<open>processAiResearch\<close> is, the block ends with the
  header. The prompt of the report contains the block of every task result.
\<close>

theorem result_block_has_header:
  "result_block i e =
     show_nat (i + 1) @ lit ''. '' @ answer e @ lit ''\<newline>References:''
     @ join (lit ''\<newline>'') (map reference_line (references e))
   \<and> result_block i \<lparr>answer = a, references = []\<rparr> =
       show_nat (i + 1) @ lit ''. '' @ a @ lit ''\<newline>References:''
   \<and> (\<forall>r. snd (processAiResearch w research) = Inr r \<longrightarrow>
         result_block i r = show_nat (i + 1) @ lit ''. '' @ answer r @ lit ''\<newline>References:'')
   \<and> (\<forall>j<length summaries. \<exists>before after.
         report_prompt plan summaries = before @ result_block j (summaries ! j) @ after)"
proof (intro conjI allI impI)
  show "result_block i e =
     show_nat (i + 1) @ lit ''. '' @ answer e @ lit ''\<newline>References:''
     @ join (lit ''\<newline>'') (map reference_line (references e))"
    by (simp add: result_block_def array_truthy_def)
  show "result_block i \<lparr>answer = a, references = []\<rparr> =
       show_nat (i + 1) @ lit ''. '' @ a @ lit ''\<newline>References:''"
    by (simp add: result_block_def array_truthy_def)
next
  fix r assume "snd (processAiResearch w research) = Inr r"
  then have "references r = []"
    by (auto simp: processAiResearch_def await_def call_def ret_def split: sum.splits)
  then show "result_block i r = show_nat (i + 1) @ lit ''. '' @ answer r @ lit ''\<newline>References:''"
    by (simp add: result_block_def array_truthy_def)
next
  fix j assume j: "j < length summaries"
  let ?blocks = "map (\<lambda>(i, e). result_block i e) (enumerate 0 summaries)"
  from j have "?blocks ! j = result_block j (summaries ! j)" by (simp add: nth_enumerate_eq)
  moreover from j have "j < length ?blocks" by simp
  from join_nth[OF this, of "lit ''\<newline>''"] obtain b a where
    "join (lit ''\<newline>'') ?blocks = b @ ?blocks ! j @ a" by blast
  ultimately have "join (lit ''\<newline>'') ?blocks = b @ result_block j (summaries ! j) @ a" by simp
  then have "report_prompt plan summaries =
      (lit ''You're conducting a research, the title is '' @ plan_title plan
     @ lit ''.\<newline>Your objective is: '' @ plan_objectives plan
     @ lit ''.\<newline>Here is the expected outcomes: '' @ plan_expectedOutcomes plan
     @ lit ''.\<newline>\<newline>Here is the current research plan:\<newline>''
     @ join (lit ''\<newline>'') (map (\<lambda>(i, e). plan_line i e) (enumerate 0 (researchPlan plan)))
     @ lit ''\<newline>\<newline>Here is the result based on the research plan above:\<newline>'' @ b)
     @ result_block j (summaries ! j) @ (a @ requirements @ language plan)"
    by (simp add: report_prompt_def)
  then show "\<exists>before after. report_prompt plan summaries = before @ result_block j (summaries ! j) @ after"
    by blast
qed

text \<open>
  A model-only result as the second of two results: its block is the answer and the bare header.
\<close>

theorem result_block_has_header_witness:
  "result_block 1 \<lparr>answer = lit ''why'', references = []\<rparr> = lit ''2. why\<newline>References:''
   \<and> result_block 0 \<lparr>answer = lit ''web'', references = [\<lparr>ref_url = lit ''y'', ref_title = lit ''Y''\<rparr>]\<rparr>
       = lit ''1. web\<newline>References:- (y)[Y]''
   \<and> (\<exists>before after.
         report_prompt two_tasks
           [\<lparr>answer = lit ''web'', references = [\<lparr>ref_url = lit ''y'', ref_title = lit ''Y''\<rparr>]\<rparr>,
            \<lparr>answer = lit ''why'', references = []\<rparr>]
         = before @ lit ''2. why\<newline>References:'' @ after)"
proof -
  let ?web = "\<lparr>answer = lit ''web'', references = [\<lparr>ref_url = lit ''y'', ref_title = lit ''Y''\<rparr>]\<rparr>"
  let ?ai = "\<lparr>answer = lit ''why'', references = []\<rparr>"
  let ?w = "world_of (\<lambda>rq. Inl NetworkError) (Inr [])"
  note at1 = result_block_has_header[of 1 ?ai "lit ''why''" ?w ai_task "[?web, ?ai]" two_tasks]
  note at0 = result_block_has_header[of 0 ?web "lit ''why''" ?w ai_task "[?web, ?ai]" two_tasks]
  have ai: "snd (processAiResearch ?w ai_task) = Inr ?ai"
    by (simp add: ai_task_def processAiResearch_def await_def call_def ret_def world_of_def)
  have n: "show_nat (1 + 1) = lit ''2''" "show_nat (0 + 1) = lit ''1''"
    by (simp_all add: show_nat_digit lit_def)
  from at1[THEN conjunct2, THEN conjunct2, THEN conjunct1, rule_format, OF ai]
  have a: "result_block 1 ?ai = lit ''2. why\<newline>References:''"
    unfolding n by (simp add: lit_def)
  from at0[THEN conjunct1]
  have b: "result_block 0 ?web = lit ''1. web\<newline>References:- (y)[Y]''"
    unfolding n by (simp add: lit_def reference_line_def)
  have l: "1 < length [?web, ?ai]" by simp
  from at1[THEN conjunct2, THEN conjunct2, THEN conjunct2, rule_format, OF l]
  have "\<exists>before after. report_prompt two_tasks [?web, ?ai] = before @ result_block 1 ?ai @ after"
    by simp
  with a b show ?thesis by simp
qed

end
